theory Spec2Isabelle
  imports Main "HOL-Library.Sublist"
begin

section \<open>The recipe store of main.py\<close>

text \<open>
  The embedding follows \<^verbatim>\<open>src/main.py\<close>. The table \<^verbatim>\<open>recipes\<close> is a list of rows in
  rowid order, which is the order a scan of the default SQLite backend returns them in
  (no query of main.py has an ORDER BY). A Python string is a list of characters, one
  \<^typ>\<open>char\<close> per character. A reading of \<^verbatim>\<open>datetime.utcnow()\<close> is a parameter of the
  operation that reads the clock. Physical limits of the engine (column widths, the
  64-bit range of an INTEGER column, the largest length of a LIKE pattern) are outside
  the model; the NOT NULL constraints the source declares are inside.
\<close>

subsection \<open>Data\<close>

type_synonym datetime = nat

text \<open>\<^verbatim>\<open>class RecipeBase(BaseModel)\<close>, lines 57-68: the fields and their types.\<close>

record RecipeBase =
  name :: string
  description :: "string option"
  ingredients :: string
  instructions :: string
  prep_time :: "int option"
  cook_time :: "int option"
  servings :: "int option"
  difficulty :: "string option"
  category :: "string option"
  tags :: "string option"
  image_url :: "string option"

text \<open>
  \<^verbatim>\<open>class Recipe(Base)\<close>, lines 34-51: a row of the table. The columns \<^verbatim>\<open>name\<close>,
  \<^verbatim>\<open>ingredients\<close> and \<^verbatim>\<open>instructions\<close> are NOT NULL, the other data columns are nullable.
  The primary key \<^verbatim>\<open>id\<close> is the field \<open>id_pk\<close>; \<^verbatim>\<open>is_deleted\<close> is a string column, as
  in the source.
\<close>

record Recipe = RecipeBase +
  id_pk :: int
  created_at :: datetime
  updated_at :: datetime
  is_deleted :: string

text \<open>
  \<^verbatim>\<open>class RecipeUpdate(BaseModel)\<close>, lines 97-108. Every field is optional, and
  \<^verbatim>\<open>dict(exclude_unset=True)\<close> tells a field the request left out (\<open>Absent\<close>) from one
  it gave, as a value or as an explicit null (\<open>Present\<close>).
\<close>

datatype 'a sent = Absent | Present "'a option"

record RecipeUpdate =
  upd_name :: "string sent"
  upd_description :: "string sent"
  upd_ingredients :: "string sent"
  upd_instructions :: "string sent"
  upd_prep_time :: "int sent"
  upd_cook_time :: "int sent"
  upd_servings :: "int sent"
  upd_difficulty :: "string sent"
  upd_category :: "string sent"
  upd_tags :: "string sent"
  upd_image_url :: "string sent"

text \<open>
  The messages of the validators: \<open>Min_chars n\<close> stands for "... al menos n caracteres",
  \<open>Greater_than_zero\<close> for "Debe ser un numero mayor a 0". The other rules are the
  constraints of the query parameters (\<^verbatim>\<open>ge\<close>, \<^verbatim>\<open>le\<close>, \<^verbatim>\<open>min_length\<close>, \<^verbatim>\<open>regex\<close>).
  A validation error names the field and the rule.
\<close>

datatype rule = Min_chars nat | Greater_than_zero | Ge int | Le int | Min_length nat | Regex

type_synonym field_error = "string \<times> rule"

text \<open>
  What an endpoint raises: \<open>RequestValidationError\<close> is the 422 answer for a body or a
  query parameter its model rejects, with the errors of all fields in the order of the
  fields; \<open>HTTPException\<close> carries the status code and the detail.
\<close>

datatype error = RequestValidationError "field_error list" | HTTPException nat string

subsection \<open>Validators of RecipeBase, lines 70-92\<close>

text \<open>\<^verbatim>\<open>str.isspace\<close> on the characters below 256, and \<^verbatim>\<open>str.strip()\<close>.\<close>

definition isspace :: "char \<Rightarrow> bool" where
  "isspace c = ((of_char c :: nat) \<in> {9, 10, 11, 12, 13, 28, 29, 30, 31, 32, 133, 160})"

definition strip :: "string \<Rightarrow> string" where
  "strip s = rev (dropWhile isspace (rev (dropWhile isspace s)))"

definition validate_name :: "string \<Rightarrow> rule + string" where
  "validate_name v =
     (if v = [] \<or> length (strip v) < 3 then Inl (Min_chars 3) else Inr (strip v))"

definition validate_ingredients :: "string \<Rightarrow> rule + string" where
  "validate_ingredients v =
     (if v = [] \<or> length (strip v) < 10 then Inl (Min_chars 10) else Inr (strip v))"

definition validate_instructions :: "string \<Rightarrow> rule + string" where
  "validate_instructions v =
     (if v = [] \<or> length (strip v) < 20 then Inl (Min_chars 20) else Inr (strip v))"

definition validate_positive_numbers :: "int option \<Rightarrow> rule + int option" where
  "validate_positive_numbers v =
     (case v of
        None \<Rightarrow> Inr None
      | Some n \<Rightarrow> if n \<le> 0 then Inl Greater_than_zero else Inr (Some n))"

text \<open>The error a validator leaves for its field, if any.\<close>

definition field_errors :: "string \<Rightarrow> rule + 'a \<Rightarrow> field_error list" where
  "field_errors loc res = (case res of Inl e \<Rightarrow> [(loc, e)] | Inr _ \<Rightarrow> [])"

definition validated :: "'a \<Rightarrow> rule + 'a \<Rightarrow> 'a" where
  "validated dflt res = (case res of Inl _ \<Rightarrow> dflt | Inr v \<Rightarrow> v)"

text \<open>
  Building a \<^verbatim>\<open>RecipeBase\<close> (or \<^verbatim>\<open>RecipeCreate\<close>) from a request body: every field is
  validated in the order of the fields, the errors of all of them are collected, and the
  model holds what the validators returned.
\<close>

definition RecipeBase_validate :: "RecipeBase \<Rightarrow> field_error list + RecipeBase" where
  "RecipeBase_validate r =
     (let errs =
            field_errors ''name'' (validate_name (name r)) @
            field_errors ''ingredients'' (validate_ingredients (ingredients r)) @
            field_errors ''instructions'' (validate_instructions (instructions r)) @
            field_errors ''prep_time'' (validate_positive_numbers (prep_time r)) @
            field_errors ''cook_time'' (validate_positive_numbers (cook_time r)) @
            field_errors ''servings'' (validate_positive_numbers (servings r))
      in if errs \<noteq> [] then Inl errs
         else Inr (r\<lparr>name := validated (name r) (validate_name (name r)),
                    ingredients := validated (ingredients r) (validate_ingredients (ingredients r)),
                    instructions := validated (instructions r) (validate_instructions (instructions r)),
                    prep_time := validated (prep_time r) (validate_positive_numbers (prep_time r)),
                    cook_time := validated (cook_time r) (validate_positive_numbers (cook_time r)),
                    servings := validated (servings r) (validate_positive_numbers (servings r))\<rparr>))"

subsection \<open>Queries, lines 151-173\<close>

type_synonym db = "Recipe list"

definition get_recipe_by_id :: "db \<Rightarrow> int \<Rightarrow> Recipe option" where
  "get_recipe_by_id db recipe_id =
     find (\<lambda>r. id_pk r = recipe_id \<and> is_deleted r = ''false'') db"

definition get_recipes :: "db \<Rightarrow> nat \<Rightarrow> nat \<Rightarrow> Recipe list" where
  "get_recipes db skip limit =
     take limit (drop skip (filter (\<lambda>r. is_deleted r = ''false'') db))"

text \<open>
  \<^verbatim>\<open>Column.contains(q)\<close> is the SQL test \<^verbatim>\<open>column LIKE '%' || q || '%'\<close>, and the
  characters of \<open>q\<close> are not escaped: in the pattern \<^verbatim>\<open>%\<close> matches any run of
  characters and \<^verbatim>\<open>_\<close> any one character. The LIKE of SQLite, the default backend,
  compares the letters A-Z without regard to case, and every other character exactly.
  It reads the pattern and the text as far as their first NUL character (U+0000) only:
  what follows a NUL, in the pattern as in the text, takes no part in the match.
  A NULL column matches nothing.
\<close>

definition upto_nul :: "string \<Rightarrow> string" where
  "upto_nul s = takeWhile (\<lambda>c. c \<noteq> CHR 0x00) s"

definition ascii_lower :: "char \<Rightarrow> char" where
  "ascii_lower c =
     (case map_of (zip ''ABCDEFGHIJKLMNOPQRSTUVWXYZ'' ''abcdefghijklmnopqrstuvwxyz'') c of
        Some l \<Rightarrow> l
      | None \<Rightarrow> c)"

fun like :: "string \<Rightarrow> string \<Rightarrow> bool" where
  "like [] s = (s = [])"
| "like (p # ps) [] = (p = CHR ''%'' \<and> like ps [])"
| "like (p # ps) (c # cs) =
     (if p = CHR ''%'' then like ps (c # cs) \<or> like (p # ps) cs
      else (p = CHR ''_'' \<or> ascii_lower p = ascii_lower c) \<and> like ps cs)"

definition contains :: "string option \<Rightarrow> string \<Rightarrow> bool" where
  "contains col q =
     (case col of
        None \<Rightarrow> False
      | Some s \<Rightarrow> like (upto_nul (CHR ''%'' # q @ [CHR ''%''])) (upto_nul s))"

definition search_recipes_by_name :: "db \<Rightarrow> string \<Rightarrow> Recipe list" where
  "search_recipes_by_name db q =
     filter (\<lambda>r. contains (Some (name r)) q \<and> is_deleted r = ''false'') db"

definition search_recipes_by_ingredient :: "db \<Rightarrow> string \<Rightarrow> Recipe list" where
  "search_recipes_by_ingredient db q =
     filter (\<lambda>r. contains (Some (ingredients r)) q \<and> is_deleted r = ''false'') db"

definition search_recipes_by_category :: "db \<Rightarrow> string \<Rightarrow> Recipe list" where
  "search_recipes_by_category db q =
     filter (\<lambda>r. contains (category r) q \<and> is_deleted r = ''false'') db"

subsection \<open>Writing a row\<close>

text \<open>
  The key of a new row: SQLite gives an INTEGER PRIMARY KEY one more than the largest
  key in the table, and 1 in an empty table.
\<close>

definition next_id :: "db \<Rightarrow> int" where
  "next_id db = 1 + fold max (map id_pk db) 0"

text \<open>\<^verbatim>\<open>db.add\<close> and \<^verbatim>\<open>db.commit\<close> of a new object: the row goes to the end of the table.\<close>

definition insert_row :: "Recipe \<Rightarrow> db \<Rightarrow> db" where
  "insert_row r db = db @ [r]"

text \<open>\<^verbatim>\<open>db.commit\<close> of a changed object: UPDATE of the row with the object's key.\<close>

definition update_row :: "Recipe \<Rightarrow> db \<Rightarrow> db" where
  "update_row r' db = map (\<lambda>r. if id_pk r = id_pk r' then r' else r) db"

text \<open>
  \<^verbatim>\<open>setattr(recipe, field, value)\<close> for a field of \<^verbatim>\<open>update_data\<close>: the attribute keeps
  its value when the field is not in the dictionary.
\<close>

fun setattr :: "'a sent \<Rightarrow> 'a option \<Rightarrow> 'a option" where
  "setattr Absent old = old"
| "setattr (Present v) old = v"

subsection \<open>Endpoints, lines 190-317 and 361-387\<close>

definition get_all_recipes :: "int \<Rightarrow> int \<Rightarrow> db \<Rightarrow> error + Recipe list" where
  "get_all_recipes skip limit db =
     (let errs = (if skip < 0 then [(''skip'', Ge 0)] else []) @
                 (if limit < 1 then [(''limit'', Ge 1)]
                  else if 100 < limit then [(''limit'', Le 100)] else [])
      in if errs \<noteq> [] then Inl (RequestValidationError errs)
         else Inr (get_recipes db (nat skip) (nat limit)))"

definition get_recipe :: "int \<Rightarrow> db \<Rightarrow> error + Recipe" where
  "get_recipe recipe_id db =
     (case get_recipe_by_id db recipe_id of
        None \<Rightarrow> Inl (HTTPException 404 ''Receta no encontrada'')
      | Some recipe \<Rightarrow> Inr recipe)"

text \<open>
  \<^verbatim>\<open>create_recipe\<close>: the body is validated into a \<^verbatim>\<open>RecipeCreate\<close> before the handler
  runs. The defaults of \<^verbatim>\<open>created_at\<close> and \<^verbatim>\<open>updated_at\<close> are two readings of the clock;
  the default of \<^verbatim>\<open>is_deleted\<close> is the string "false". The result is the stored row and
  the new table.
\<close>

definition create_recipe ::
  "datetime \<Rightarrow> datetime \<Rightarrow> RecipeBase \<Rightarrow> db \<Rightarrow> error + Recipe \<times> db" where
  "create_recipe now_c now_u body db =
     (case RecipeBase_validate body of
        Inl errs \<Rightarrow> Inl (RequestValidationError errs)
      | Inr recipe \<Rightarrow>
          let db_recipe =
                \<lparr>name = name recipe, description = description recipe,
                 ingredients = ingredients recipe, instructions = instructions recipe,
                 prep_time = prep_time recipe, cook_time = cook_time recipe,
                 servings = servings recipe, difficulty = difficulty recipe,
                 category = category recipe, tags = tags recipe,
                 image_url = image_url recipe,
                 id_pk = next_id db, created_at = now_c, updated_at = now_u,
                 is_deleted = ''false''\<rparr>
          in Inr (db_recipe, insert_row db_recipe db))"

text \<open>\<^verbatim>\<open>update_recipe\<close> (PUT): the body is a validated \<^verbatim>\<open>RecipeBase\<close>; every field is set.\<close>

definition update_recipe ::
  "datetime \<Rightarrow> int \<Rightarrow> RecipeBase \<Rightarrow> db \<Rightarrow> error + Recipe \<times> db" where
  "update_recipe now recipe_id body db =
     (case RecipeBase_validate body of
        Inl errs \<Rightarrow> Inl (RequestValidationError errs)
      | Inr recipe_update \<Rightarrow>
          (case get_recipe_by_id db recipe_id of
             None \<Rightarrow> Inl (HTTPException 404 ''Receta no encontrada'')
           | Some recipe \<Rightarrow>
               let recipe' =
                     recipe\<lparr>name := name recipe_update,
                            description := description recipe_update,
                            ingredients := ingredients recipe_update,
                            instructions := instructions recipe_update,
                            prep_time := prep_time recipe_update,
                            cook_time := cook_time recipe_update,
                            servings := servings recipe_update,
                            difficulty := difficulty recipe_update,
                            category := category recipe_update,
                            tags := tags recipe_update,
                            image_url := image_url recipe_update,
                            updated_at := now\<rparr>
               in Inr (recipe', update_row recipe' db)))"

text \<open>
  \<^verbatim>\<open>patch_recipe\<close> (PATCH): \<^verbatim>\<open>RecipeUpdate\<close> has no validator, so the values of the body
  are set as they came. The commit raises an IntegrityError when \<^verbatim>\<open>name\<close>,
  \<^verbatim>\<open>ingredients\<close> or \<^verbatim>\<open>instructions\<close> was set to null; the \<^verbatim>\<open>except\<close> branch rolls back
  and answers 400 with the text of the exception, for which the name of the exception
  stands here.
\<close>

definition patch_recipe ::
  "datetime \<Rightarrow> int \<Rightarrow> RecipeUpdate \<Rightarrow> db \<Rightarrow> error + Recipe \<times> db" where
  "patch_recipe now recipe_id recipe_update db =
     (case get_recipe_by_id db recipe_id of
        None \<Rightarrow> Inl (HTTPException 404 ''Receta no encontrada'')
      | Some recipe \<Rightarrow>
          (case (setattr (upd_name recipe_update) (Some (name recipe)),
                 setattr (upd_ingredients recipe_update) (Some (ingredients recipe)),
                 setattr (upd_instructions recipe_update) (Some (instructions recipe))) of
             (Some name', Some ingredients', Some instructions') \<Rightarrow>
               let recipe' =
                     recipe\<lparr>name := name',
                            description :=
                              setattr (upd_description recipe_update) (description recipe),
                            ingredients := ingredients',
                            instructions := instructions',
                            prep_time := setattr (upd_prep_time recipe_update) (prep_time recipe),
                            cook_time := setattr (upd_cook_time recipe_update) (cook_time recipe),
                            servings := setattr (upd_servings recipe_update) (servings recipe),
                            difficulty :=
                              setattr (upd_difficulty recipe_update) (difficulty recipe),
                            category := setattr (upd_category recipe_update) (category recipe),
                            tags := setattr (upd_tags recipe_update) (tags recipe),
                            image_url :=
                              setattr (upd_image_url recipe_update) (image_url recipe),
                            updated_at := now\<rparr>
               in Inr (recipe', update_row recipe' db)
           | _ \<Rightarrow> Inl (HTTPException 400 ''IntegrityError'')))"

text \<open>\<^verbatim>\<open>delete_recipe\<close>: the soft delete.\<close>

definition delete_recipe :: "datetime \<Rightarrow> int \<Rightarrow> db \<Rightarrow> error + string \<times> db" where
  "delete_recipe now recipe_id db =
     (case get_recipe_by_id db recipe_id of
        None \<Rightarrow> Inl (HTTPException 404 ''Receta no encontrada'')
      | Some recipe \<Rightarrow>
          let recipe' = recipe\<lparr>is_deleted := ''true'', updated_at := now\<rparr>
          in Inr (''Receta eliminada exitosamente'', update_row recipe' db))"

text \<open>
  \<^verbatim>\<open>search_recipes\<close>: \<^verbatim>\<open>q\<close> has at least one character and \<^verbatim>\<open>type\<close> is one of three
  words. The last branch cannot be reached past the check of \<^verbatim>\<open>type\<close>; its exception
  would be caught by the handler's own \<^verbatim>\<open>except\<close>.
\<close>

definition search_recipes :: "string \<Rightarrow> string \<Rightarrow> db \<Rightarrow> error + Recipe list" where
  "search_recipes q type db =
     (let errs = (if length q < 1 then [(''q'', Min_length 1)] else []) @
                 (if type \<notin> set [''name'', ''ingredient'', ''category'']
                  then [(''type'', Regex)] else [])
      in if errs \<noteq> [] then Inl (RequestValidationError errs)
         else if type = ''name'' then Inr (search_recipes_by_name db q)
         else if type = ''ingredient'' then Inr (search_recipes_by_ingredient db q)
         else if type = ''category'' then Inr (search_recipes_by_category db q)
         else Inl (HTTPException 500 ''Error interno del servidor''))"

text \<open>
  \<^verbatim>\<open>get_stats\<close>: two counts, then one count per distinct category of the rows that are
  not deleted, for the categories that are truthy in Python (neither null nor empty).
\<close>

record Stats =
  total_recipes :: nat
  total_deleted :: nat
  categories :: "string \<rightharpoonup> nat"
  timestamp :: datetime

definition count_category :: "db \<Rightarrow> string \<Rightarrow> nat" where
  "count_category db c =
     length (filter (\<lambda>r. category r = Some c \<and> is_deleted r = ''false'') db)"

fun category_counts :: "db \<Rightarrow> string option list \<Rightarrow> (string \<rightharpoonup> nat) \<Rightarrow> (string \<rightharpoonup> nat)" where
  "category_counts db [] m = m"
| "category_counts db (None # cs) m = category_counts db cs m"
| "category_counts db (Some c # cs) m =
     (if c \<noteq> [] then category_counts db cs (m(c \<mapsto> count_category db c))
      else category_counts db cs m)"

definition get_stats :: "datetime \<Rightarrow> db \<Rightarrow> Stats" where
  "get_stats now db =
     \<lparr>total_recipes = length (filter (\<lambda>r. is_deleted r = ''false'') db),
      total_deleted = length (filter (\<lambda>r. is_deleted r = ''true'') db),
      categories =
        category_counts db
          (remdups (map category (filter (\<lambda>r. is_deleted r = ''false'') db))) Map.empty,
      timestamp = now\<rparr>"

subsection \<open>Requests that write\<close>

text \<open>
  The four endpoints of main.py that change the table, and the table after a request;
  a request that is answered with an error leaves the table as it was.
\<close>

datatype request =
    Post datetime datetime RecipeBase
  | Put datetime int RecipeBase
  | Patch datetime int RecipeUpdate
  | Delete datetime int

definition table_of :: "db \<Rightarrow> error + 'a \<times> db \<Rightarrow> db" where
  "table_of db res = (case res of Inl _ \<Rightarrow> db | Inr (_, db') \<Rightarrow> db')"

fun handle :: "request \<Rightarrow> db \<Rightarrow> db" where
  "handle (Post now_c now_u body) db = table_of db (create_recipe now_c now_u body db)"
| "handle (Put now recipe_id body) db = table_of db (update_recipe now recipe_id body db)"
| "handle (Patch now recipe_id u) db = table_of db (patch_recipe now recipe_id u db)"
| "handle (Delete now recipe_id) db = table_of db (delete_recipe now recipe_id db)"

definition run :: "request list \<Rightarrow> db \<Rightarrow> db" where
  "run reqs db = fold handle reqs db"

text \<open>
  The tables main.py can hold have their keys in strictly ascending order: the empty
  table has, and every request keeps it so (lemmas \<open>ascending_handle\<close> and
  \<open>ascending_run\<close>).
\<close>

definition ascending :: "db \<Rightarrow> bool" where
  "ascending db = sorted_wrt (<) (map id_pk db)"

subsection \<open>The validation order of the specification\<close>

text \<open>
  The order of the rules as the specification words it (section 4.1, create): the
  three lengths after trimming, then the three numbers; \<open>first_failing_rule\<close> is the
  first rule that fails, if one does. It is compared with \<open>RecipeBase_validate\<close> below.
\<close>

definition not_positive :: "int option \<Rightarrow> bool" where
  "not_positive v = (case v of None \<Rightarrow> False | Some n \<Rightarrow> n \<le> 0)"

definition first_failing_rule :: "RecipeBase \<Rightarrow> field_error option" where
  "first_failing_rule body =
     (if length (strip (name body)) < 3 then Some (''name'', Min_chars 3)
      else if length (strip (ingredients body)) < 10 then Some (''ingredients'', Min_chars 10)
      else if length (strip (instructions body)) < 20 then Some (''instructions'', Min_chars 20)
      else if not_positive (prep_time body) then Some (''prep_time'', Greater_than_zero)
      else if not_positive (cook_time body) then Some (''cook_time'', Greater_than_zero)
      else if not_positive (servings body) then Some (''servings'', Greater_than_zero)
      else None)"

subsection \<open>Examples\<close>

text \<open>
  The sample recipe of the test suite (with plain ASCII text), and the row it becomes
  as the first row of an empty table when both clock readings are 10.
\<close>

definition pasta :: RecipeBase where
  "pasta = \<lparr>name = ''Pasta Carbonara'',
     description = Some ''Deliciosa pasta italiana con huevos y panceta'',
     ingredients = ''400g pasta, 200g panceta, 4 huevos, 100g queso parmesano'',
     instructions = ''1. Hervir la pasta 2. Freir la panceta 3. Mezclar huevos con queso'',
     prep_time = Some 15, cook_time = Some 20, servings = Some 4,
     difficulty = Some ''medio'', category = Some ''almuerzo'',
     tags = Some ''italiana, pasta'', image_url = None\<rparr>"

definition pasta_row :: Recipe where
  "pasta_row = \<lparr>name = ''Pasta Carbonara'',
     description = Some ''Deliciosa pasta italiana con huevos y panceta'',
     ingredients = ''400g pasta, 200g panceta, 4 huevos, 100g queso parmesano'',
     instructions = ''1. Hervir la pasta 2. Freir la panceta 3. Mezclar huevos con queso'',
     prep_time = Some 15, cook_time = Some 20, servings = Some 4,
     difficulty = Some ''medio'', category = Some ''almuerzo'',
     tags = Some ''italiana, pasta'', image_url = None,
     id_pk = 1, created_at = 10, updated_at = 10, is_deleted = ''false''\<rparr>"

text \<open>A \<^verbatim>\<open>RecipeUpdate\<close> built from a body with no field at all.\<close>

definition RecipeUpdate_unset :: RecipeUpdate where
  "RecipeUpdate_unset =
     \<lparr>upd_name = Absent, upd_description = Absent, upd_ingredients = Absent,
      upd_instructions = Absent, upd_prep_time = Absent, upd_cook_time = Absent,
      upd_servings = Absent, upd_difficulty = Absent, upd_category = Absent,
      upd_tags = Absent, upd_image_url = Absent\<rparr>"

text \<open>
  A table of three rows: two recipes of the category "almuerzo", the second of them
  deleted, and one of the category "cena".
\<close>

definition ensalada_row :: Recipe where
  "ensalada_row = pasta_row\<lparr>name := ''Ensalada mixta'', id_pk := 2, updated_at := 30,
     is_deleted := ''true''\<rparr>"

definition sopa_row :: Recipe where
  "sopa_row = pasta_row\<lparr>name := ''Sopa de ajo'', category := Some ''cena'', id_pk := 3,
     created_at := 20, updated_at := 20\<rparr>"

definition three_rows :: db where
  "three_rows = [pasta_row, ensalada_row, sopa_row]"

text \<open>The sample recipe with blanks around its name.\<close>

definition padded :: RecipeBase where
  "padded = pasta\<lparr>name := ''  Pasta Carbonara  ''\<rparr>"

text \<open>A body with a name and a list of ingredients that are too short.\<close>

definition too_short :: RecipeBase where
  "too_short = pasta\<lparr>name := ''AB'', ingredients := ''Pocos''\<rparr>"

text \<open>A row whose category is the empty string.\<close>

definition blank_category_row :: Recipe where
  "blank_category_row = pasta_row\<lparr>category := Some ''''\<rparr>"

text \<open>A body of PATCH that gives a name of two characters and nothing else.\<close>

definition short_name_patch :: RecipeUpdate where
  "short_name_patch = RecipeUpdate_unset\<lparr>upd_name := Present (Some ''AB'')\<rparr>"

section \<open>Properties\<close>

subsection \<open>Keys and lookups\<close>

lemma get_recipe_by_id_SomeD:
  "get_recipe_by_id db i = Some r \<Longrightarrow> r \<in> set db \<and> id_pk r = i \<and> is_deleted r = ''false''"
  unfolding get_recipe_by_id_def by (induction db) (auto split: if_splits)

lemma get_recipe_by_id_None:
  "get_recipe_by_id db i = None \<longleftrightarrow> (\<forall>r\<in>set db. id_pk r = i \<longrightarrow> is_deleted r \<noteq> ''false'')"
  unfolding get_recipe_by_id_def by (auto simp: find_None_iff)

lemma ascending_distinct: "ascending db \<Longrightarrow> distinct (map id_pk db)"
  unfolding ascending_def by (simp add: strict_sorted_iff)

lemma ascending_inj:
  assumes "ascending db" "r \<in> set db" "r' \<in> set db" "id_pk r = id_pk r'"
  shows "r = r'"
  using ascending_distinct[OF assms(1)] assms(2-4)
  by (meson distinct_map inj_onD)

lemma get_recipe_by_id_Some:
  assumes "ascending db" "r \<in> set db" "is_deleted r = ''false''"
  shows "get_recipe_by_id db (id_pk r) = Some r"
proof (cases "get_recipe_by_id db (id_pk r)")
  case None
  with assms show ?thesis by (auto simp: get_recipe_by_id_None)
next
  case (Some r')
  from get_recipe_by_id_SomeD[OF Some] assms have "r' = r"
    by (auto intro: ascending_inj)
  with Some show ?thesis by simp
qed

lemma get_recipe_by_id_deleted:
  assumes "ascending db" "r \<in> set db" "is_deleted r \<noteq> ''false''"
  shows "get_recipe_by_id db (id_pk r) = None"
proof -
  have "r' = r" if "r' \<in> set db" "id_pk r' = id_pk r" for r'
    using that assms by (auto intro: ascending_inj)
  with assms show ?thesis by (auto simp: get_recipe_by_id_None)
qed

lemma ids_update_row: "map id_pk (update_row r' db) = map id_pk db"
  unfolding update_row_def by (induction db) auto

lemma ascending_update_row: "ascending db \<Longrightarrow> ascending (update_row r' db)"
  by (simp add: ascending_def ids_update_row)

lemma update_row_nth:
  assumes "ascending db" "k < length db" "id_pk r' = id_pk (db ! k)"
  shows "update_row r' db = db[k := r']"
proof (rule nth_equalityI)
  show "length (update_row r' db) = length (db[k := r'])" by (simp add: update_row_def)
next
  fix j assume "j < length (update_row r' db)"
  then have j: "j < length db" by (simp add: update_row_def)
  have "id_pk (db ! j) = id_pk (db ! k) \<longleftrightarrow> j = k"
    using ascending_distinct[OF assms(1)] j assms(2)
    by (metis length_map nth_eq_iff_index_eq nth_map)
  with j assms show "update_row r' db ! j = db[k := r'] ! j"
    by (auto simp: update_row_def)
qed

lemma fold_max_ge: "(a::int) \<le> fold max xs a"
proof (induction xs arbitrary: a)
  case Nil then show ?case by simp
next
  case (Cons y ys)
  have "a \<le> max y a" by simp
  also have "\<dots> \<le> fold max ys (max y a)" by (rule Cons.IH)
  finally show ?case by simp
qed

lemma fold_max_upper: "x \<in> set xs \<Longrightarrow> (x::int) \<le> fold max xs a"
proof (induction xs arbitrary: a)
  case Nil then show ?case by simp
next
  case (Cons y ys)
  show ?case
  proof (cases "x = y")
    case True
    have "y \<le> max y a" by simp
    also have "\<dots> \<le> fold max ys (max y a)" by (rule fold_max_ge)
    finally show ?thesis using True by simp
  next
    case False
    with Cons show ?thesis by simp
  qed
qed

lemma next_id_fresh: "r \<in> set db \<Longrightarrow> id_pk r < next_id db"
  using fold_max_upper[of "id_pk r" "map id_pk db" 0] by (simp add: next_id_def)

lemma ascending_insert_row:
  "ascending db \<Longrightarrow> id_pk r = next_id db \<Longrightarrow> ascending (insert_row r db)"
  by (auto simp: ascending_def insert_row_def sorted_wrt_append dest: next_id_fresh)

lemma get_recipe_by_id_nth:
  "ascending db \<Longrightarrow> k < length db \<Longrightarrow> is_deleted (db ! k) = ''false'' \<Longrightarrow>
   get_recipe_by_id db (id_pk (db ! k)) = Some (db ! k)"
  by (simp add: get_recipe_by_id_Some)

subsection \<open>Soft delete\<close>

text \<open>
  Claim C5. In a table with ascending keys, \<^verbatim>\<open>delete_recipe\<close> on the key of a row that is
  not deleted succeeds: the row, and no other, gets \<^verbatim>\<open>is_deleted = "true"\<close> and the
  clock reading as \<^verbatim>\<open>updated_at\<close>; a second \<^verbatim>\<open>delete_recipe\<close> on the same key right
  after answers 404. On a key that no row has, or that only a deleted row has, it
  answers 404.
\<close>

theorem delete_recipe_soft:
  assumes "ascending db"
  shows "(k < length db \<and> is_deleted (db ! k) = ''false'' \<longrightarrow>
            delete_recipe now (id_pk (db ! k)) db =
              Inr (''Receta eliminada exitosamente'',
                   db[k := (db ! k)\<lparr>is_deleted := ''true'', updated_at := now\<rparr>]) \<and>
            delete_recipe now' (id_pk (db ! k))
                (db[k := (db ! k)\<lparr>is_deleted := ''true'', updated_at := now\<rparr>]) =
              Inl (HTTPException 404 ''Receta no encontrada'')) \<and>
         ((\<forall>r\<in>set db. id_pk r = i \<longrightarrow> is_deleted r = ''true'') \<longrightarrow>
            delete_recipe now i db = Inl (HTTPException 404 ''Receta no encontrada''))"
proof (intro conjI impI)
  assume k: "k < length db \<and> is_deleted (db ! k) = ''false''"
  let ?r' = "(db ! k)\<lparr>is_deleted := ''true'', updated_at := now\<rparr>"
  have upd: "update_row ?r' db = db[k := ?r']"
    using assms k by (simp add: update_row_nth)
  show "delete_recipe now (id_pk (db ! k)) db =
          Inr (''Receta eliminada exitosamente'', db[k := ?r'])"
    using assms k upd by (simp add: delete_recipe_def get_recipe_by_id_nth)
  have asc: "ascending (db[k := ?r'])"
    using ascending_update_row[OF assms, of ?r'] upd by simp
  have "?r' \<in> set (db[k := ?r'])"
    using k by (simp add: set_update_memI)
  from get_recipe_by_id_deleted[OF asc this]
  show "delete_recipe now' (id_pk (db ! k)) (db[k := ?r']) =
          Inl (HTTPException 404 ''Receta no encontrada'')"
    by (simp add: delete_recipe_def)
next
  assume "\<forall>r\<in>set db. id_pk r = i \<longrightarrow> is_deleted r = ''true''"
  then have "get_recipe_by_id db i = None"
    by (auto simp: get_recipe_by_id_None)
  then show "delete_recipe now i db = Inl (HTTPException 404 ''Receta no encontrada'')"
    by (simp add: delete_recipe_def)
qed

theorem delete_recipe_soft_witness:
  "ascending [pasta_row] \<and>
   delete_recipe 20 1 [pasta_row] =
     Inr (''Receta eliminada exitosamente'',
          [pasta_row\<lparr>is_deleted := ''true'', updated_at := 20\<rparr>]) \<and>
   delete_recipe 30 1 [pasta_row\<lparr>is_deleted := ''true'', updated_at := 20\<rparr>] =
     Inl (HTTPException 404 ''Receta no encontrada'') \<and>
   delete_recipe 20 7 [pasta_row] = Inl (HTTPException 404 ''Receta no encontrada'')"
proof -
  have a: "ascending [pasta_row]" by (simp add: ascending_def)
  show ?thesis
    using a delete_recipe_soft[OF a, of 0 20 30 7]
    by (simp add: pasta_row_def)
qed

subsection \<open>Partial update\<close>

text \<open>
  Claim C10. \<^verbatim>\<open>patch_recipe\<close> with a body that holds no field, on the key of a row that
  is not deleted, succeeds and returns the row with \<^verbatim>\<open>updated_at\<close> set to the clock
  reading; every other field of the row, and every other row of the table, is as
  before.
\<close>

theorem patch_recipe_no_fields:
  assumes "ascending db" "k < length db" "is_deleted (db ! k) = ''false''"
  shows "patch_recipe now (id_pk (db ! k)) RecipeUpdate_unset db =
           Inr ((db ! k)\<lparr>updated_at := now\<rparr>, db[k := (db ! k)\<lparr>updated_at := now\<rparr>])"
proof -
  let ?r' = "(db ! k)\<lparr>updated_at := now\<rparr>"
  have "update_row ?r' db = db[k := ?r']"
    using assms by (simp add: update_row_nth)
  then show ?thesis
    using assms
    by (simp add: patch_recipe_def get_recipe_by_id_nth RecipeUpdate_unset_def Let_def)
qed

theorem patch_recipe_no_fields_witness:
  "ascending [pasta_row] \<and> (0::nat) < length [pasta_row] \<and>
   is_deleted ([pasta_row] ! 0) = ''false'' \<and>
   patch_recipe 20 1 RecipeUpdate_unset [pasta_row] =
     Inr (pasta_row\<lparr>updated_at := 20\<rparr>, [pasta_row\<lparr>updated_at := 20\<rparr>])"
proof -
  have a: "ascending [pasta_row]" by (simp add: ascending_def)
  have d: "is_deleted ([pasta_row] ! 0) = ''false''" by (simp add: pasta_row_def)
  show ?thesis
    using a d patch_recipe_no_fields[OF a _ d, of 20]
    by (simp add: pasta_row_def)
qed

subsection \<open>Reading\<close>

lemma ascending_three_rows: "ascending three_rows"
  by (simp add: ascending_def three_rows_def pasta_row_def ensalada_row_def sopa_row_def)

lemma get_recipe_Inr:
  "ascending db \<Longrightarrow>
   get_recipe i db = Inr r \<longleftrightarrow> r \<in> set db \<and> id_pk r = i \<and> is_deleted r = ''false''"
  by (auto simp: get_recipe_def get_recipe_by_id_Some split: option.splits
      dest: get_recipe_by_id_SomeD)

lemma get_recipe_not_found:
  "(\<forall>r\<in>set db. id_pk r = i \<longrightarrow> is_deleted r \<noteq> ''false'') \<Longrightarrow>
   get_recipe i db = Inl (HTTPException 404 ''Receta no encontrada'')"
  using get_recipe_by_id_None[of db i] by (simp add: get_recipe_def)

lemma search_recipes_active:
  "search_recipes q type db = Inr rs \<Longrightarrow> x \<in> set rs \<Longrightarrow> is_deleted x = ''false''"
  by (auto simp: search_recipes_def Let_def search_recipes_by_name_def
      search_recipes_by_ingredient_def search_recipes_by_category_def split: if_splits)

lemma get_recipes_active: "x \<in> set (get_recipes db skip limit) \<Longrightarrow> is_deleted x = ''false''"
  by (auto simp: get_recipes_def dest!: in_set_takeD in_set_dropD)

lemma get_all_recipes_active:
  "get_all_recipes skip limit db = Inr rs \<Longrightarrow> x \<in> set rs \<Longrightarrow> is_deleted x = ''false''"
  by (auto simp: get_all_recipes_def Let_def split: if_splits dest: get_recipes_active)

text \<open>
  Claim C4. In a table with ascending keys, \<^verbatim>\<open>get_recipe\<close> returns a row exactly when
  the row is in the table under that key and is not deleted; for the key of a deleted
  row and for a key that no row has it gives the same 404 answer. Every row that
  \<^verbatim>\<open>get_all_recipes\<close> or \<^verbatim>\<open>search_recipes\<close> returns has \<^verbatim>\<open>is_deleted = "false"\<close>, so none
  of them is a deleted one.
\<close>

theorem reads_hide_deleted:
  assumes "ascending db"
  shows "(get_recipe i db = Inr r \<longleftrightarrow> r \<in> set db \<and> id_pk r = i \<and> is_deleted r = ''false'') \<and>
         (d \<in> set db \<and> is_deleted d = ''true'' \<longrightarrow>
            get_recipe (id_pk d) db = Inl (HTTPException 404 ''Receta no encontrada'')) \<and>
         (j \<notin> id_pk ` set db \<longrightarrow>
            get_recipe j db = Inl (HTTPException 404 ''Receta no encontrada'')) \<and>
         (\<forall>rs. get_all_recipes skip limit db = Inr rs \<longrightarrow>
            (\<forall>x\<in>set rs. is_deleted x = ''false'')) \<and>
         (\<forall>rs. search_recipes q type db = Inr rs \<longrightarrow>
            (\<forall>x\<in>set rs. is_deleted x = ''false''))"
proof (intro conjI impI allI ballI)
  show "get_recipe i db = Inr r \<longleftrightarrow> r \<in> set db \<and> id_pk r = i \<and> is_deleted r = ''false''"
    using assms by (rule get_recipe_Inr)
next
  assume d: "d \<in> set db \<and> is_deleted d = ''true''"
  then have "get_recipe_by_id db (id_pk d) = None"
    using assms by (intro get_recipe_by_id_deleted) auto
  then show "get_recipe (id_pk d) db = Inl (HTTPException 404 ''Receta no encontrada'')"
    by (simp add: get_recipe_def)
next
  assume "j \<notin> id_pk ` set db"
  then show "get_recipe j db = Inl (HTTPException 404 ''Receta no encontrada'')"
    by (intro get_recipe_not_found) auto
next
  fix rs x assume "get_all_recipes skip limit db = Inr rs" "x \<in> set rs"
  then show "is_deleted x = ''false''" by (rule get_all_recipes_active)
next
  fix rs x assume "search_recipes q type db = Inr rs" "x \<in> set rs"
  then show "is_deleted x = ''false''" by (rule search_recipes_active)
qed

lemma like_a_pasta: "like ''%a%'' ''Pasta Carbonara''"
  by (simp add: ascii_lower_def)

lemma like_a_sopa: "like ''%a%'' ''Sopa de ajo''"
  by (simp add: ascii_lower_def)

theorem reads_hide_deleted_witness:
  "ascending three_rows \<and>
   get_recipe 1 three_rows = Inr pasta_row \<and>
   get_recipe 2 three_rows = Inl (HTTPException 404 ''Receta no encontrada'') \<and>
   get_recipe 7 three_rows = Inl (HTTPException 404 ''Receta no encontrada'') \<and>
   get_all_recipes 0 100 three_rows = Inr [pasta_row, sopa_row] \<and>
   search_recipes ''a'' ''name'' three_rows = Inr [pasta_row, sopa_row]"
proof -
  have s: "search_recipes ''a'' ''name'' three_rows = Inr [pasta_row, sopa_row]"
    using like_a_pasta like_a_sopa
    by (simp add: search_recipes_def search_recipes_by_name_def contains_def upto_nul_def
        three_rows_def pasta_row_def ensalada_row_def sopa_row_def)
  have l: "get_all_recipes 0 100 three_rows = Inr [pasta_row, sopa_row]"
    by (simp add: get_all_recipes_def get_recipes_def three_rows_def
        pasta_row_def ensalada_row_def sopa_row_def)
  have e: "ensalada_row \<in> set three_rows \<and> is_deleted ensalada_row = ''true''"
    by (simp add: three_rows_def ensalada_row_def)
  have p: "pasta_row \<in> set three_rows \<and> id_pk pasta_row = 1 \<and> is_deleted pasta_row = ''false''"
    by (simp add: three_rows_def pasta_row_def)
  have n: "7 \<notin> id_pk ` set three_rows"
    by (simp add: three_rows_def pasta_row_def ensalada_row_def sopa_row_def)
  have i2: "id_pk ensalada_row = 2" by (simp add: ensalada_row_def)
  from reads_hide_deleted[OF ascending_three_rows, of 1 pasta_row ensalada_row 7] e p n i2
  show ?thesis using ascending_three_rows s l by simp
qed

subsection \<open>Pagination\<close>

lemma concat_pages:
  "concat (map (\<lambda>j. take L (drop (j * L) xs)) [0..<n]) = take (n * L) xs"
proof (induction n)
  case 0
  show ?case by simp
next
  case (Suc n)
  have "take (Suc n * L) xs = take (n * L) xs @ take L (drop (n * L) xs)"
    by (simp add: take_add[symmetric] add.commute)
  with Suc show ?case by simp
qed

lemma ascending_active:
  "ascending db \<Longrightarrow> sorted_wrt (<) (map id_pk (filter (\<lambda>r. is_deleted r = ''false'') db))"
  unfolding ascending_def by (induction db) auto

text \<open>
  Claim C6. In a table with ascending keys and for a limit \<open>L\<close> from 1 to 100,
  \<^verbatim>\<open>get_all_recipes\<close> returns the rows that are not deleted, which stand in ascending
  order of their keys, without the first \<open>skip\<close> of them and cut after \<open>L\<close>; and the
  pages at the offsets \<open>0, L, 2L, ...\<close>, one after the other, are these rows, each once
  and in ascending order of the keys, as soon as the pages reach past the last row.
\<close>

theorem get_recipes_pagination:
  assumes "ascending db" "1 \<le> L" "L \<le> 100"
  shows "get_all_recipes (int skip) (int L) db =
           Inr (take L (drop skip (filter (\<lambda>r. is_deleted r = ''false'') db))) \<and>
         sorted_wrt (<) (map id_pk (filter (\<lambda>r. is_deleted r = ''false'') db)) \<and>
         sorted_wrt (<) (map id_pk (get_recipes db skip L)) \<and>
         length (get_recipes db skip L) \<le> L \<and>
         (length (filter (\<lambda>r. is_deleted r = ''false'') db) \<le> n * L \<longrightarrow>
            concat (map (\<lambda>j. get_recipes db (j * L) L) [0..<n]) =
              filter (\<lambda>r. is_deleted r = ''false'') db)"
proof -
  let ?act = "filter (\<lambda>r. is_deleted r = ''false'') db"
  have s: "sorted_wrt (<) (map id_pk ?act)"
    using assms(1) by (rule ascending_active)
  have "sorted_wrt (<) (drop skip (map id_pk ?act))"
    using s by (rule sorted_wrt_drop)
  then have "sorted_wrt (<) (take L (drop skip (map id_pk ?act)))"
    by (rule sorted_wrt_take)
  then have p: "sorted_wrt (<) (map id_pk (get_recipes db skip L))"
    by (simp add: get_recipes_def take_map drop_map)
  have e: "get_all_recipes (int skip) (int L) db = Inr (take L (drop skip ?act))"
    using assms(2,3) by (simp add: get_all_recipes_def get_recipes_def)
  have c: "concat (map (\<lambda>j. get_recipes db (j * L) L) [0..<n]) = ?act"
    if "length ?act \<le> n * L"
    using that concat_pages[of L ?act n] by (simp add: get_recipes_def)
  show ?thesis using s p e c by (simp add: get_recipes_def)
qed

theorem get_recipes_pagination_witness:
  "ascending three_rows \<and> (1::nat) \<le> 1 \<and> (1::nat) \<le> 100 \<and>
   get_all_recipes 0 1 three_rows = Inr [pasta_row] \<and>
   get_all_recipes 1 1 three_rows = Inr [sopa_row] \<and>
   concat (map (\<lambda>j. get_recipes three_rows (j * 1) 1) [0..<2]) = [pasta_row, sopa_row]"
proof -
  have f: "filter (\<lambda>r. is_deleted r = ''false'') three_rows = [pasta_row, sopa_row]"
    by (simp add: three_rows_def pasta_row_def ensalada_row_def sopa_row_def)
  have o: "(1::nat) \<le> 1" "(1::nat) \<le> 100" by simp_all
  from get_recipes_pagination[OF ascending_three_rows o, of 0 2]
       get_recipes_pagination[OF ascending_three_rows o, of 1 2]
  show ?thesis using ascending_three_rows by (simp add: f)
qed

subsection \<open>Validation and creation\<close>

lemma strip_Nil: "strip [] = []"
  by (simp add: strip_def)

lemma field_errors_Inl: "field_errors loc (Inl e) = [(loc, e)]"
  by (simp add: field_errors_def)

lemma field_errors_Inr: "field_errors loc (Inr v) = []"
  by (simp add: field_errors_def)

lemma validate_name_cases:
  "validate_name v = (if length (strip v) < 3 then Inl (Min_chars 3) else Inr (strip v))"
  by (cases "v = []") (auto simp: validate_name_def strip_Nil)

lemma validate_ingredients_cases:
  "validate_ingredients v = (if length (strip v) < 10 then Inl (Min_chars 10) else Inr (strip v))"
  by (cases "v = []") (auto simp: validate_ingredients_def strip_Nil)

lemma validate_instructions_cases:
  "validate_instructions v = (if length (strip v) < 20 then Inl (Min_chars 20) else Inr (strip v))"
  by (cases "v = []") (auto simp: validate_instructions_def strip_Nil)

lemma validate_positive_numbers_cases:
  "validate_positive_numbers v = (if not_positive v then Inl Greater_than_zero else Inr v)"
  by (auto simp: validate_positive_numbers_def not_positive_def split: option.splits)

lemmas validate_cases = validate_name_cases validate_ingredients_cases
  validate_instructions_cases validate_positive_numbers_cases

lemma RecipeBase_validate_fails:
  "first_failing_rule body = Some e \<Longrightarrow> \<exists>errs. RecipeBase_validate body = Inl (e # errs)"
  by (auto simp: first_failing_rule_def RecipeBase_validate_def Let_def validate_cases
      field_errors_Inl field_errors_Inr split: if_splits)

lemma RecipeBase_validate_passes:
  "first_failing_rule body = None \<Longrightarrow>
   RecipeBase_validate body =
     Inr (body\<lparr>name := strip (name body), ingredients := strip (ingredients body),
               instructions := strip (instructions body)\<rparr>)"
  by (auto simp: first_failing_rule_def RecipeBase_validate_def Let_def validate_cases
      field_errors_Inl field_errors_Inr validated_def split: if_splits)

lemma first_failing_rule_pasta: "first_failing_rule pasta = None"
  by (simp add: first_failing_rule_def pasta_def strip_def isspace_def not_positive_def)

lemma first_failing_rule_padded: "first_failing_rule padded = None"
  by (simp add: first_failing_rule_def padded_def pasta_def strip_def isspace_def
      not_positive_def)

lemma strip_padded: "strip (name padded) = ''Pasta Carbonara''"
  by (simp add: padded_def strip_def isspace_def)

lemma strip_pasta:
  "strip (name pasta) = name pasta \<and> strip (ingredients pasta) = ingredients pasta \<and>
   strip (instructions pasta) = instructions pasta"
  by (simp add: pasta_def strip_def isspace_def)

text \<open>
  Claim C8. The first rule that fails, in the order name, ingredients, instructions
  (lengths after trimming: 3, 10, 20), then \<^verbatim>\<open>prep_time\<close>, \<^verbatim>\<open>cook_time\<close>, \<^verbatim>\<open>servings\<close>
  (greater than 0 when given), is the first error of the validation error with which
  \<^verbatim>\<open>create_recipe\<close> answers, named by its field and its rule (the errors of later
  fields follow it), and the table is left as it was. When no rule fails the recipe
  is stored as the last row, with the three texts trimmed.
\<close>

theorem create_recipe_validation:
  "(first_failing_rule body = Some e \<longrightarrow>
      (\<exists>errs. create_recipe now_c now_u body db = Inl (RequestValidationError (e # errs))) \<and>
      handle (Post now_c now_u body) db = db) \<and>
   (first_failing_rule body = None \<longrightarrow>
      (\<exists>r. create_recipe now_c now_u body db = Inr (r, db @ [r]) \<and>
           name r = strip (name body) \<and> ingredients r = strip (ingredients body) \<and>
           instructions r = strip (instructions body)))"
proof (intro conjI impI)
  assume "first_failing_rule body = Some e"
  then obtain errs where v: "RecipeBase_validate body = Inl (e # errs)"
    using RecipeBase_validate_fails by blast
  then show "\<exists>errs. create_recipe now_c now_u body db = Inl (RequestValidationError (e # errs))"
    by (simp add: create_recipe_def)
  from v show "handle (Post now_c now_u body) db = db"
    by (simp add: create_recipe_def table_of_def)
next
  assume "first_failing_rule body = None"
  then show "\<exists>r. create_recipe now_c now_u body db = Inr (r, db @ [r]) \<and>
           name r = strip (name body) \<and> ingredients r = strip (ingredients body) \<and>
           instructions r = strip (instructions body)"
    by (simp add: create_recipe_def RecipeBase_validate_passes Let_def insert_row_def)
qed

theorem create_recipe_validation_witness:
  "first_failing_rule too_short = Some (''name'', Min_chars 3) \<and>
   create_recipe 10 10 too_short [pasta_row] =
     Inl (RequestValidationError [(''name'', Min_chars 3), (''ingredients'', Min_chars 10)]) \<and>
   handle (Post 10 10 too_short) [pasta_row] = [pasta_row] \<and>
   first_failing_rule pasta = None \<and>
   create_recipe 10 10 pasta [] = Inr (pasta_row, [pasta_row])"
proof -
  have f: "first_failing_rule too_short = Some (''name'', Min_chars 3)"
    by (simp add: first_failing_rule_def too_short_def pasta_def strip_def isspace_def)
  have v: "RecipeBase_validate too_short =
             Inl [(''name'', Min_chars 3), (''ingredients'', Min_chars 10)]"
    by (simp add: RecipeBase_validate_def validate_cases field_errors_def not_positive_def
        too_short_def pasta_def strip_def isspace_def)
  have c: "create_recipe 10 10 pasta [] = Inr (pasta_row, [pasta_row])"
    using strip_pasta
    by (simp add: create_recipe_def RecipeBase_validate_passes first_failing_rule_pasta
        insert_row_def next_id_def Let_def)
       (simp add: pasta_def pasta_row_def)
  from create_recipe_validation[of too_short "(''name'', Min_chars 3)" 10 10 "[pasta_row]"]
       create_recipe_validation[of pasta "(''name'', Min_chars 3)" 10 10 "[]"]
  show ?thesis
    using f v c first_failing_rule_pasta by (simp add: create_recipe_def)
qed

text \<open>
  Claim C7, as the specification states it, fails for an input with blanks around a
  text: the validators return the trimmed text, and that is what is stored.
\<close>

theorem create_then_get_counterexample:
  "first_failing_rule padded = None \<and>
   create_recipe 10 10 padded [] = Inr (pasta_row, [pasta_row]) \<and>
   get_recipe 1 [pasta_row] = Inr pasta_row \<and>
   name pasta_row \<noteq> name padded"
proof -
  have s: "strip (ingredients padded) = ingredients pasta \<and>
           strip (instructions padded) = instructions pasta"
    using strip_pasta by (simp add: padded_def)
  have c: "create_recipe 10 10 padded [] = Inr (pasta_row, [pasta_row])"
    using strip_padded s
    by (simp add: create_recipe_def RecipeBase_validate_passes first_failing_rule_padded
        insert_row_def next_id_def Let_def)
       (simp add: padded_def pasta_def pasta_row_def)
  have g: "get_recipe 1 [pasta_row] = Inr pasta_row"
    by (simp add: get_recipe_def get_recipe_by_id_def pasta_row_def)
  have n: "name pasta_row \<noteq> name padded"
    by (simp add: pasta_row_def padded_def)
  show ?thesis using first_failing_rule_padded c g n by simp
qed

text \<open>
  Claim C7, amended. For an input that breaks no rule, in a table with ascending keys,
  \<^verbatim>\<open>create_recipe\<close> succeeds, and \<^verbatim>\<open>get_recipe\<close> on the new key right after returns the
  stored row: the input with name, ingredients and instructions trimmed, the key one
  above the largest of the table, the two clock readings, and \<^verbatim>\<open>is_deleted = "false"\<close>.
\<close>

theorem create_then_get:
  assumes "ascending db" "first_failing_rule body = None"
  shows "\<exists>r. create_recipe now_c now_u body db = Inr (r, db @ [r]) \<and>
             get_recipe (id_pk r) (db @ [r]) = Inr r \<and>
             r = \<lparr>name = strip (name body), description = description body,
                  ingredients = strip (ingredients body),
                  instructions = strip (instructions body),
                  prep_time = prep_time body, cook_time = cook_time body,
                  servings = servings body, difficulty = difficulty body,
                  category = category body, tags = tags body, image_url = image_url body,
                  id_pk = next_id db, created_at = now_c, updated_at = now_u,
                  is_deleted = ''false''\<rparr>"
proof -
  let ?r = "\<lparr>name = strip (name body), description = description body,
                  ingredients = strip (ingredients body),
                  instructions = strip (instructions body),
                  prep_time = prep_time body, cook_time = cook_time body,
                  servings = servings body, difficulty = difficulty body,
                  category = category body, tags = tags body, image_url = image_url body,
                  id_pk = next_id db, created_at = now_c, updated_at = now_u,
                  is_deleted = ''false''\<rparr>"
  have c: "create_recipe now_c now_u body db = Inr (?r, db @ [?r])"
    using assms(2)
    by (simp add: create_recipe_def RecipeBase_validate_passes insert_row_def Let_def)
  have "ascending (insert_row ?r db)"
    using assms(1) by (rule ascending_insert_row) simp
  then have a: "ascending (db @ [?r])" by (simp add: insert_row_def)
  have "get_recipe (id_pk ?r) (db @ [?r]) = Inr ?r"
    using get_recipe_Inr[OF a, of "id_pk ?r" ?r] by simp
  with c show ?thesis by blast
qed

theorem create_then_get_witness:
  "ascending three_rows \<and> first_failing_rule pasta = None \<and>
   create_recipe 40 41 pasta three_rows =
     Inr (pasta_row\<lparr>id_pk := 4, created_at := 40, updated_at := 41\<rparr>,
          three_rows @ [pasta_row\<lparr>id_pk := 4, created_at := 40, updated_at := 41\<rparr>]) \<and>
   get_recipe 4 (three_rows @ [pasta_row\<lparr>id_pk := 4, created_at := 40, updated_at := 41\<rparr>]) =
     Inr (pasta_row\<lparr>id_pk := 4, created_at := 40, updated_at := 41\<rparr>)"
proof -
  have n: "next_id three_rows = 4"
    by (simp add: next_id_def three_rows_def pasta_row_def ensalada_row_def sopa_row_def)
  have r: "\<lparr>name = strip (name pasta), description = description pasta,
                  ingredients = strip (ingredients pasta),
                  instructions = strip (instructions pasta),
                  prep_time = prep_time pasta, cook_time = cook_time pasta,
                  servings = servings pasta, difficulty = difficulty pasta,
                  category = category pasta, tags = tags pasta, image_url = image_url pasta,
                  id_pk = 4, created_at = 40, updated_at = 41,
                  is_deleted = ''false''\<rparr> =
           pasta_row\<lparr>id_pk := 4, created_at := 40, updated_at := 41\<rparr>"
    using strip_pasta by (simp add: pasta_def pasta_row_def)
  from create_then_get[OF ascending_three_rows first_failing_rule_pasta, of 40 41]
  show ?thesis
    using ascending_three_rows first_failing_rule_pasta by (simp add: n r)
qed

subsection \<open>Statistics\<close>

lemma category_counts_lookup:
  "category_counts db cs m c =
     (if c \<noteq> [] \<and> Some c \<in> set cs then Some (count_category db c) else m c)"
proof (induction db cs m rule: category_counts.induct)
  case (1 db m)
  show ?case by simp
next
  case (2 db cs m)
  then show ?case by simp
next
  case (3 db c' cs m)
  then show ?case by (auto simp: fun_upd_def)
qed

text \<open>
  Claim C9, as the specification states it, fails for the empty string: it is a
  category that is not null, and \<^verbatim>\<open>if category:\<close> leaves it out of the counts.
\<close>

theorem get_stats_counterexample:
  "is_deleted blank_category_row = ''false'' \<and>
   category blank_category_row = Some '''' \<and>
   categories (get_stats 50 [blank_category_row]) '''' = None"
  by (simp add: get_stats_def blank_category_row_def pasta_row_def)

text \<open>
  Claim C9, amended. \<^verbatim>\<open>get_stats\<close> counts the rows that are not deleted and the rows
  that are deleted, and maps every category that is neither null nor the empty string
  and that some row which is not deleted has, to the number of rows that are not deleted
  and have exactly this string as their category; it maps no other string.
\<close>

theorem get_stats_counts:
  "total_recipes (get_stats now db) = length (filter (\<lambda>r. is_deleted r = ''false'') db) \<and>
   total_deleted (get_stats now db) = length (filter (\<lambda>r. is_deleted r = ''true'') db) \<and>
   categories (get_stats now db) c =
     (if c \<noteq> [] \<and> (\<exists>r\<in>set db. is_deleted r = ''false'' \<and> category r = Some c)
      then Some (length (filter (\<lambda>r. category r = Some c \<and> is_deleted r = ''false'') db))
      else None)"
proof -
  have "Some c \<in> set (remdups (map category (filter (\<lambda>r. is_deleted r = ''false'') db))) \<longleftrightarrow>
        (\<exists>r\<in>set db. is_deleted r = ''false'' \<and> category r = Some c)"
    by force
  then show ?thesis
    by (simp add: get_stats_def category_counts_lookup count_category_def)
qed

text \<open>
  The scenario of the specification: three recipes of the categories "almuerzo",
  "almuerzo" and "cena", one "almuerzo" deleted.
\<close>

theorem get_stats_counts_witness:
  "total_recipes (get_stats 50 three_rows) = 2 \<and>
   total_deleted (get_stats 50 three_rows) = 1 \<and>
   categories (get_stats 50 three_rows) ''almuerzo'' = Some 1 \<and>
   categories (get_stats 50 three_rows) ''cena'' = Some 1 \<and>
   categories (get_stats 50 three_rows) ''alm'' = None \<and>
   dom (categories (get_stats 50 three_rows)) = {''almuerzo'', ''cena''}"
proof -
  have d: "categories (get_stats 50 three_rows) = [''almuerzo'' \<mapsto> 1, ''cena'' \<mapsto> 1]"
    by (simp add: get_stats_def count_category_def three_rows_def pasta_row_def
        ensalada_row_def sopa_row_def fun_upd_twist)
  have t: "total_recipes (get_stats 50 three_rows) = 2 \<and>
           total_deleted (get_stats 50 three_rows) = 1"
    by (simp add: get_stats_def three_rows_def pasta_row_def ensalada_row_def sopa_row_def)
  show ?thesis
    using get_stats_counts[of 50 three_rows "''almuerzo''"] t
    by (simp add: d insert_commute)
qed

subsection \<open>Partial update without validation\<close>

text \<open>
  Claim C1. \<^verbatim>\<open>patch_recipe\<close> does not validate: a name of two characters, which
  \<^verbatim>\<open>validate_name\<close> rejects and with which \<^verbatim>\<open>create_recipe\<close> and \<^verbatim>\<open>update_recipe\<close> answer
  a validation error, is stored by \<^verbatim>\<open>patch_recipe\<close> as it came.
\<close>

theorem patch_recipe_stores_short_name:
  "validate_name ''AB'' = Inl (Min_chars 3) \<and>
   create_recipe 20 20 (pasta\<lparr>name := ''AB''\<rparr>) [pasta_row] =
     Inl (RequestValidationError [(''name'', Min_chars 3)]) \<and>
   update_recipe 20 1 (pasta\<lparr>name := ''AB''\<rparr>) [pasta_row] =
     Inl (RequestValidationError [(''name'', Min_chars 3)]) \<and>
   patch_recipe 20 1 short_name_patch [pasta_row] =
     Inr (pasta_row\<lparr>name := ''AB'', updated_at := 20\<rparr>,
          [pasta_row\<lparr>name := ''AB'', updated_at := 20\<rparr>])"
proof -
  have v: "RecipeBase_validate (pasta\<lparr>name := ''AB''\<rparr>) = Inl [(''name'', Min_chars 3)]"
    by (simp add: RecipeBase_validate_def validate_cases field_errors_def not_positive_def
        pasta_def strip_def isspace_def)
  have n: "validate_name ''AB'' = Inl (Min_chars 3)"
    by (simp add: validate_name_def strip_def isspace_def)
  have p: "patch_recipe 20 1 short_name_patch [pasta_row] =
     Inr (pasta_row\<lparr>name := ''AB'', updated_at := 20\<rparr>,
          [pasta_row\<lparr>name := ''AB'', updated_at := 20\<rparr>])"
    by (simp add: patch_recipe_def get_recipe_by_id_def short_name_patch_def
        RecipeUpdate_unset_def update_row_def Let_def pasta_row_def)
  show ?thesis using v n p by (simp add: create_recipe_def update_recipe_def)
qed

text \<open>
  What \<^verbatim>\<open>patch_recipe\<close> does with the fields: a field of the body replaces the value of
  the row, a field the body leaves out keeps it, unless the body sets one of the three
  NOT NULL columns to null.
\<close>

lemma patch_recipe_fields:
  assumes "ascending db" "k < length db" "is_deleted (db ! k) = ''false''"
    and "upd_name u \<noteq> Present None" "upd_ingredients u \<noteq> Present None"
        "upd_instructions u \<noteq> Present None"
  shows "\<exists>r'. patch_recipe now (id_pk (db ! k)) u db = Inr (r', db[k := r']) \<and>
           Some (name r') = setattr (upd_name u) (Some (name (db ! k))) \<and>
           description r' = setattr (upd_description u) (description (db ! k)) \<and>
           Some (ingredients r') = setattr (upd_ingredients u) (Some (ingredients (db ! k))) \<and>
           Some (instructions r') =
             setattr (upd_instructions u) (Some (instructions (db ! k))) \<and>
           prep_time r' = setattr (upd_prep_time u) (prep_time (db ! k)) \<and>
           cook_time r' = setattr (upd_cook_time u) (cook_time (db ! k)) \<and>
           servings r' = setattr (upd_servings u) (servings (db ! k)) \<and>
           difficulty r' = setattr (upd_difficulty u) (difficulty (db ! k)) \<and>
           category r' = setattr (upd_category u) (category (db ! k)) \<and>
           tags r' = setattr (upd_tags u) (tags (db ! k)) \<and>
           image_url r' = setattr (upd_image_url u) (image_url (db ! k)) \<and>
           id_pk r' = id_pk (db ! k) \<and> created_at r' = created_at (db ! k) \<and>
           updated_at r' = now \<and> is_deleted r' = is_deleted (db ! k)"
proof -
  obtain n where n: "setattr (upd_name u) (Some (name (db ! k))) = Some n"
    using assms(4) by (cases "upd_name u") auto
  obtain i where i: "setattr (upd_ingredients u) (Some (ingredients (db ! k))) = Some i"
    using assms(5) by (cases "upd_ingredients u") auto
  obtain s where s: "setattr (upd_instructions u) (Some (instructions (db ! k))) = Some s"
    using assms(6) by (cases "upd_instructions u") auto
  have g: "get_recipe_by_id db (id_pk (db ! k)) = Some (db ! k)"
    using assms(1-3) by (rule get_recipe_by_id_nth)
  show ?thesis
    using update_row_nth[OF assms(1,2)]
    by (simp add: patch_recipe_def g n i s Let_def)
qed

subsection \<open>No way back from a soft delete\<close>

lemma update_row_keeps:
  "r \<in> set db \<Longrightarrow> id_pk r \<noteq> id_pk r' \<Longrightarrow> r \<in> set (update_row r' db)"
  by (auto simp: update_row_def)

lemma found_is_other:
  assumes "ascending db" "r \<in> set db" "is_deleted r \<noteq> ''false''"
    and "get_recipe_by_id db i = Some x"
  shows "id_pk r \<noteq> id_pk x"
proof
  assume e: "id_pk r = id_pk x"
  from get_recipe_by_id_SomeD[OF assms(4)] have x: "x \<in> set db" "is_deleted x = ''false''"
    by simp_all
  from ascending_inj[OF assms(1,2) x(1) e] x(2) assms(3) show False by simp
qed

lemma update_recipe_shape:
  "update_recipe now i body db = Inr (r', db') \<Longrightarrow>
   \<exists>x. get_recipe_by_id db i = Some x \<and> id_pk r' = id_pk x \<and> db' = update_row r' db"
  by (auto simp: update_recipe_def Let_def split: sum.splits option.splits)

lemma patch_recipe_shape:
  "patch_recipe now i u db = Inr (r', db') \<Longrightarrow>
   \<exists>x. get_recipe_by_id db i = Some x \<and> id_pk r' = id_pk x \<and> db' = update_row r' db"
  by (auto simp: patch_recipe_def Let_def split: sum.splits option.splits)

lemma delete_recipe_shape:
  "delete_recipe now i db = Inr (msg, db') \<Longrightarrow>
   \<exists>x r'. get_recipe_by_id db i = Some x \<and> id_pk r' = id_pk x \<and> db' = update_row r' db"
proof -
  assume a: "delete_recipe now i db = Inr (msg, db')"
  then obtain x where x: "get_recipe_by_id db i = Some x"
    by (auto simp: delete_recipe_def split: option.splits)
  let ?r' = "x\<lparr>is_deleted := ''true'', updated_at := now\<rparr>"
  from a x have "db' = update_row ?r' db"
    by (simp add: delete_recipe_def Let_def)
  moreover have "id_pk ?r' = id_pk x" by simp
  ultimately show ?thesis using x by blast
qed

lemma create_recipe_shape:
  "create_recipe now_c now_u body db = Inr (r', db') \<Longrightarrow>
   db' = insert_row r' db \<and> id_pk r' = next_id db"
  by (auto simp: create_recipe_def Let_def split: sum.splits)

lemma handle_shape:
  "handle req db = db \<or>
   (\<exists>r'. handle req db = insert_row r' db \<and> id_pk r' = next_id db) \<or>
   (\<exists>i x r'. get_recipe_by_id db i = Some x \<and> id_pk r' = id_pk x \<and>
      handle req db = update_row r' db)"
proof (cases req)
  case (Post now_c now_u body)
  show ?thesis
  proof (cases "create_recipe now_c now_u body db")
    case (Inl e)
    with Post show ?thesis by (simp add: table_of_def)
  next
    case (Inr p)
    obtain r' db' where p: "p = (r', db')" by (cases p)
    from create_recipe_shape[OF Inr[unfolded p]]
    have "db' = insert_row r' db" "id_pk r' = next_id db" by simp_all
    moreover have "handle req db = db'" using Post Inr p by (simp add: table_of_def)
    ultimately show ?thesis by blast
  qed
next
  case (Put now i body)
  show ?thesis
  proof (cases "update_recipe now i body db")
    case (Inl e)
    with Put show ?thesis by (simp add: table_of_def)
  next
    case (Inr p)
    obtain r' db' where p: "p = (r', db')" by (cases p)
    from update_recipe_shape[OF Inr[unfolded p]] obtain x where
      "get_recipe_by_id db i = Some x" "id_pk r' = id_pk x" "db' = update_row r' db"
      by blast
    moreover have "handle req db = db'" using Put Inr p by (simp add: table_of_def)
    ultimately show ?thesis by blast
  qed
next
  case (Patch now i u)
  show ?thesis
  proof (cases "patch_recipe now i u db")
    case (Inl e)
    with Patch show ?thesis by (simp add: table_of_def)
  next
    case (Inr p)
    obtain r' db' where p: "p = (r', db')" by (cases p)
    from patch_recipe_shape[OF Inr[unfolded p]] obtain x where
      "get_recipe_by_id db i = Some x" "id_pk r' = id_pk x" "db' = update_row r' db"
      by blast
    moreover have "handle req db = db'" using Patch Inr p by (simp add: table_of_def)
    ultimately show ?thesis by blast
  qed
next
  case (Delete now i)
  show ?thesis
  proof (cases "delete_recipe now i db")
    case (Inl e)
    with Delete show ?thesis by (simp add: table_of_def)
  next
    case (Inr p)
    obtain msg db' where p: "p = (msg, db')" by (cases p)
    from delete_recipe_shape[OF Inr[unfolded p]] obtain x r' where
      "get_recipe_by_id db i = Some x" "id_pk r' = id_pk x" "db' = update_row r' db"
      by blast
    moreover have "handle req db = db'" using Delete Inr p by (simp add: table_of_def)
    ultimately show ?thesis by blast
  qed
qed

lemma ascending_handle: "ascending db \<Longrightarrow> ascending (handle req db)"
  using handle_shape[of req db]
  by (auto simp: ascending_update_row ascending_insert_row)

lemma handle_keeps_deleted:
  assumes "ascending db" "r \<in> set db" "is_deleted r \<noteq> ''false''"
  shows "r \<in> set (handle req db)"
proof -
  from handle_shape[of req db] consider
      "handle req db = db"
    | r' where "handle req db = insert_row r' db"
    | i x r' where "get_recipe_by_id db i = Some x" "id_pk r' = id_pk x"
        "handle req db = update_row r' db"
    by blast
  then show ?thesis
  proof cases
    case 1
    with assms(2) show ?thesis by simp
  next
    case 2
    with assms(2) show ?thesis by (simp add: insert_row_def)
  next
    case 3
    from found_is_other[OF assms 3(1)] 3(2) have "id_pk r \<noteq> id_pk r'" by simp
    with assms(2) 3(3) show ?thesis by (simp add: update_row_keeps)
  qed
qed

lemma ascending_run_from: "ascending db \<Longrightarrow> ascending (run reqs db)"
  unfolding run_def by (induction reqs arbitrary: db) (simp_all add: ascending_handle)

lemma run_keeps_deleted:
  "ascending db \<Longrightarrow> r \<in> set db \<Longrightarrow> is_deleted r \<noteq> ''false'' \<Longrightarrow>
   ascending (run reqs db) \<and> r \<in> set (run reqs db)"
  unfolding run_def
proof (induction reqs arbitrary: db)
  case Nil
  then show ?case by simp
next
  case (Cons req reqs)
  from Cons.prems have "ascending (handle req db)" "r \<in> set (handle req db)"
    by (simp_all add: ascending_handle handle_keeps_deleted)
  with Cons.IH[of "handle req db"] Cons.prems(3) show ?case by simp
qed

lemma ascending_run: "ascending (run reqs [])"
  using ascending_run_from[of "[]" reqs] by (simp add: ascending_def)

text \<open>
  Claim C3. main.py has no operation that restores: \<^verbatim>\<open>update_recipe\<close>, \<^verbatim>\<open>patch_recipe\<close>
  and \<^verbatim>\<open>delete_recipe\<close> look their row up with \<^verbatim>\<open>get_recipe_by_id\<close>, which does not see
  a deleted row, and \<^verbatim>\<open>create_recipe\<close> adds a row. So a deleted row stays in the table,
  deleted and unchanged, whatever requests follow, and \<^verbatim>\<open>get_recipe\<close> on its key answers
  404 ever after, where the test \<^verbatim>\<open>test_restore_recipe\<close> expects 200.
\<close>

theorem deleted_rows_stay_deleted:
  assumes "ascending db" "r \<in> set db" "is_deleted r = ''true''"
  shows "r \<in> set (run reqs db) \<and>
         get_recipe (id_pk r) (run reqs db) = Inl (HTTPException 404 ''Receta no encontrada'')"
proof -
  from assms(3) have d: "is_deleted r \<noteq> ''false''" by simp
  from run_keeps_deleted[OF assms(1,2) d]
  have a: "ascending (run reqs db)" and m: "r \<in> set (run reqs db)" by simp_all
  from get_recipe_by_id_deleted[OF a m d] m show ?thesis
    by (simp add: get_recipe_def)
qed

theorem deleted_rows_stay_deleted_witness:
  "ascending three_rows \<and> ensalada_row \<in> set three_rows \<and>
   is_deleted ensalada_row = ''true'' \<and>
   get_recipe 2 (run [Patch 60 2 RecipeUpdate_unset, Put 61 2 pasta, Delete 62 2,
                      Post 63 63 pasta] three_rows) =
     Inl (HTTPException 404 ''Receta no encontrada'')"
proof -
  have m: "ensalada_row \<in> set three_rows" by (simp add: three_rows_def)
  have d: "is_deleted ensalada_row = ''true''" by (simp add: ensalada_row_def)
  have i: "id_pk ensalada_row = 2" by (simp add: ensalada_row_def)
  from deleted_rows_stay_deleted[OF ascending_three_rows m d]
  show ?thesis using ascending_three_rows m d by (simp add: i)
qed

text \<open>The steps of the test up to the request for a restore: create, delete, get.\<close>

lemma create_delete_get:
  "run [Post 10 10 pasta, Delete 20 1] [] =
     [pasta_row\<lparr>is_deleted := ''true'', updated_at := 20\<rparr>] \<and>
   get_recipe 1 [pasta_row\<lparr>is_deleted := ''true'', updated_at := 20\<rparr>] =
     Inl (HTTPException 404 ''Receta no encontrada'')"
proof -
  have c: "create_recipe 10 10 pasta [] = Inr (pasta_row, [pasta_row])"
    using strip_pasta
    by (simp add: create_recipe_def RecipeBase_validate_passes first_failing_rule_pasta
        insert_row_def next_id_def Let_def)
       (simp add: pasta_def pasta_row_def)
  have d: "delete_recipe 20 1 [pasta_row] =
     Inr (''Receta eliminada exitosamente'',
          [pasta_row\<lparr>is_deleted := ''true'', updated_at := 20\<rparr>])"
    by (simp add: delete_recipe_def get_recipe_by_id_def update_row_def pasta_row_def)
  have g: "get_recipe 1 [pasta_row\<lparr>is_deleted := ''true'', updated_at := 20\<rparr>] =
     Inl (HTTPException 404 ''Receta no encontrada'')"
    by (simp add: get_recipe_def get_recipe_by_id_def pasta_row_def)
  show ?thesis using g by (simp add: run_def c d table_of_def)
qed

subsection \<open>Search\<close>

lemma like_percent_any: "like [CHR ''%''] s"
  by (induction s) simp_all

lemma like_percent:
  "like (CHR ''%'' # ps) s \<longleftrightarrow> (\<exists>pre rest. s = pre @ rest \<and> like ps rest)"
proof (induction s)
  case Nil
  show ?case by simp
next
  case (Cons c cs)
  have "(\<exists>pre rest. c # cs = pre @ rest \<and> like ps rest) \<longleftrightarrow>
        like ps (c # cs) \<or> (\<exists>pre rest. cs = pre @ rest \<and> like ps rest)"
    by (auto simp: Cons_eq_append_conv)
  with Cons show ?case by simp
qed

lemma like_literal:
  assumes "CHR ''%'' \<notin> set q" "CHR ''_'' \<notin> set q"
  shows "like (q @ ps) s \<longleftrightarrow>
         (\<exists>mid rest. s = mid @ rest \<and> map ascii_lower mid = map ascii_lower q \<and> like ps rest)"
  using assms
proof (induction q arbitrary: s)
  case Nil
  show ?case by simp
next
  case (Cons p q)
  show ?case
  proof (cases s)
    case Nil
    with Cons.prems show ?thesis by auto
  next
    case s: (Cons c cs)
    have "(\<exists>mid rest. c # cs = mid @ rest \<and>
             map ascii_lower mid = map ascii_lower (p # q) \<and> like ps rest) \<longleftrightarrow>
          ascii_lower p = ascii_lower c \<and>
          (\<exists>mid rest. cs = mid @ rest \<and> map ascii_lower mid = map ascii_lower q \<and>
             like ps rest)" (is "?L \<longleftrightarrow> ?R")
    proof
      assume ?L
      then obtain mid rest where a: "c # cs = mid @ rest"
        "map ascii_lower mid = map ascii_lower (p # q)" "like ps rest"
        by blast
      from a(2) obtain z zs where m: "mid = z # zs" "ascii_lower z = ascii_lower p"
        "map ascii_lower zs = map ascii_lower q"
        by (cases mid) auto
      from a(1) m(1) have "z = c" "cs = zs @ rest" by simp_all
      with m a(3) show ?R by auto
    next
      assume ?R
      then obtain mid rest where b: "ascii_lower p = ascii_lower c" "cs = mid @ rest"
        "map ascii_lower mid = map ascii_lower q" "like ps rest"
        by blast
      then have "c # cs = (c # mid) @ rest \<and>
        map ascii_lower (c # mid) = map ascii_lower (p # q) \<and> like ps rest"
        by simp
      then show ?L by blast
    qed
    moreover have "like ((p # q) @ ps) (c # cs) \<longleftrightarrow>
          ascii_lower p = ascii_lower c \<and> like (q @ ps) cs"
      using Cons.prems by auto
    ultimately show ?thesis
      using Cons.IH[of cs] Cons.prems s by simp
  qed
qed

lemma sublist_map_iff:
  "sublist (map f q) (map f s) \<longleftrightarrow> (\<exists>pre mid suf. s = pre @ mid @ suf \<and> map f mid = map f q)"
  by (auto simp: sublist_def map_eq_append_conv append_eq_map_conv) metis+

lemma upto_nul_all: "CHR 0x00 \<notin> set s \<Longrightarrow> upto_nul s = s"
  by (auto simp: upto_nul_def takeWhile_eq_all_conv)

lemma contains_sublist:
  assumes "CHR ''%'' \<notin> set q" "CHR ''_'' \<notin> set q" "CHR 0x00 \<notin> set q"
  shows "contains (Some s) q \<longleftrightarrow>
         sublist (map ascii_lower q) (map ascii_lower (upto_nul s))"
proof -
  have "CHR 0x00 \<notin> set (CHR ''%'' # q @ [CHR ''%''])"
    using assms(3) by simp
  then have p: "upto_nul (CHR ''%'' # q @ [CHR ''%'']) = CHR ''%'' # q @ [CHR ''%'']"
    by (rule upto_nul_all)
  have "contains (Some s) q \<longleftrightarrow>
        (\<exists>pre rest. upto_nul s = pre @ rest \<and> like (q @ [CHR ''%'']) rest)"
    by (simp only: contains_def option.case p like_percent)
  also have "\<dots> \<longleftrightarrow> (\<exists>pre mid suf. upto_nul s = pre @ mid @ suf \<and>
        map ascii_lower mid = map ascii_lower q)"
    by (simp add: like_literal[OF assms(1,2)] like_percent_any) blast
  finally show ?thesis by (simp add: sublist_map_iff)
qed

text \<open>
  Claim C2, as the specification states it, fails. The LIKE of the default backend
  does not tell "carbonara" from "Carbonara", so the search for "carbonara" returns the
  record named "Pasta Carbonara"; the characters \<^verbatim>\<open>_\<close> and \<^verbatim>\<open>%\<close> of a query are
  wildcards of the pattern, so the search for "_" returns it as well, although its name
  has no underscore; and the pattern ends at a NUL character, so the search for the
  one character NUL returns it too.
\<close>

theorem search_counterexample:
  "name pasta_row = ''Pasta Carbonara'' \<and>
   search_recipes ''carbonara'' ''name'' [pasta_row] = Inr [pasta_row] \<and>
   \<not> sublist ''carbonara'' ''Pasta Carbonara'' \<and>
   search_recipes ''_'' ''name'' [pasta_row] = Inr [pasta_row] \<and>
   \<not> sublist ''_'' ''Pasta Carbonara'' \<and>
   search_recipes [CHR 0x00] ''name'' [pasta_row] = Inr [pasta_row] \<and>
   \<not> sublist [CHR 0x00] ''Pasta Carbonara''"
proof -
  have l: "like ''%carbonara%'' ''Pasta Carbonara''" "like ''%_%'' ''Pasta Carbonara''"
    "like ''%'' ''Pasta Carbonara''"
    by (simp_all add: ascii_lower_def)
  have t: "upto_nul ''Pasta Carbonara'' = ''Pasta Carbonara''"
    "upto_nul ''%carbonara%'' = ''%carbonara%''" "upto_nul ''%_%'' = ''%_%''"
    "upto_nul (CHR ''%'' # [CHR 0x00] @ ''%'') = ''%''"
    by (simp_all add: upto_nul_def)
  have n: "name pasta_row = ''Pasta Carbonara''" "is_deleted pasta_row = ''false''"
    by (simp_all add: pasta_row_def)
  have c: "contains (Some ''Pasta Carbonara'') ''carbonara''"
    "contains (Some ''Pasta Carbonara'') ''_''"
    "contains (Some ''Pasta Carbonara'') [CHR 0x00]"
    using l t by (simp_all add: contains_def)
  have s: "search_recipes ''carbonara'' ''name'' [pasta_row] = Inr [pasta_row]"
          "search_recipes ''_'' ''name'' [pasta_row] = Inr [pasta_row]"
          "search_recipes [CHR 0x00] ''name'' [pasta_row] = Inr [pasta_row]"
    using c by (simp_all add: search_recipes_def search_recipes_by_name_def n)
  have u: "\<not> sublist ''carbonara'' ''Pasta Carbonara''" "\<not> sublist ''_'' ''Pasta Carbonara''"
    "\<not> sublist [CHR 0x00] ''Pasta Carbonara''"
    by (simp_all add: sublist_Cons_right)
  show ?thesis using n s u by simp
qed

text \<open>
  Claim C2, amended. For a query without the characters \<^verbatim>\<open>%\<close>, \<^verbatim>\<open>_\<close> and NUL, each of
  the three searches returns exactly the rows that are not deleted and whose field (name,
  ingredients, or a category that is not null), read as far as its first NUL character,
  contains the query as a substring when the letters A-Z are read as a-z on both sides.
\<close>

theorem search_is_containment:
  assumes "CHR ''%'' \<notin> set q" "CHR ''_'' \<notin> set q" "CHR 0x00 \<notin> set q"
  shows "search_recipes_by_name db q =
           filter (\<lambda>r. is_deleted r = ''false'' \<and>
                     sublist (map ascii_lower q) (map ascii_lower (upto_nul (name r)))) db \<and>
         search_recipes_by_ingredient db q =
           filter (\<lambda>r. is_deleted r = ''false'' \<and>
                     sublist (map ascii_lower q)
                       (map ascii_lower (upto_nul (ingredients r)))) db \<and>
         search_recipes_by_category db q =
           filter (\<lambda>r. is_deleted r = ''false'' \<and>
                     (\<exists>c. category r = Some c \<and>
                          sublist (map ascii_lower q) (map ascii_lower (upto_nul c)))) db"
proof -
  have c: "contains (category r) q \<longleftrightarrow>
           (\<exists>c. category r = Some c \<and>
                sublist (map ascii_lower q) (map ascii_lower (upto_nul c)))"
    for r :: Recipe
  proof (cases "category r")
    case None
    then show ?thesis by (simp add: contains_def)
  next
    case (Some c)
    with contains_sublist[OF assms, of c] show ?thesis by simp
  qed
  show ?thesis
    unfolding search_recipes_by_name_def search_recipes_by_ingredient_def
      search_recipes_by_category_def
    by (intro conjI filter_cong refl) (auto simp: contains_sublist[OF assms] c)
qed

theorem search_is_containment_witness:
  "CHR ''%'' \<notin> set ''carbonara'' \<and> CHR ''_'' \<notin> set ''carbonara'' \<and>
   CHR 0x00 \<notin> set ''carbonara'' \<and>
   search_recipes_by_name [pasta_row] ''carbonara'' = [pasta_row] \<and>
   sublist (map ascii_lower ''carbonara'') (map ascii_lower (upto_nul (name pasta_row))) \<and>
   search_recipes_by_name [pasta_row] ''carbonaro'' = [] \<and>
   search_recipes_by_category [pasta_row] ''muer'' = [pasta_row]"
proof -
  have w: "CHR ''%'' \<notin> set ''carbonara''" "CHR ''_'' \<notin> set ''carbonara''"
    "CHR 0x00 \<notin> set ''carbonara''"
    by simp_all
  have l: "like ''%carbonara%'' ''Pasta Carbonara''" "\<not> like ''%carbonaro%'' ''Pasta Carbonara''"
    "like ''%muer%'' ''almuerzo''"
    by (simp_all add: ascii_lower_def)
  have s: "search_recipes_by_name [pasta_row] ''carbonara'' = [pasta_row]"
    "search_recipes_by_name [pasta_row] ''carbonaro'' = []"
    "search_recipes_by_category [pasta_row] ''muer'' = [pasta_row]"
    using l
    by (simp_all add: search_recipes_by_name_def search_recipes_by_category_def contains_def
        upto_nul_def pasta_row_def)
  from search_is_containment[OF w, of "[pasta_row]"]
  have e: "search_recipes_by_name [pasta_row] ''carbonara'' =
           filter (\<lambda>r. is_deleted r = ''false'' \<and>
                     sublist (map ascii_lower ''carbonara'')
                       (map ascii_lower (upto_nul (name r))))
             [pasta_row]"
    by (rule conjunct1)
  have "pasta_row \<in> set (search_recipes_by_name [pasta_row] ''carbonara'')"
    by (simp only: s(1)) simp
  then have "pasta_row \<in> set (filter (\<lambda>r. is_deleted r = ''false'' \<and>
                     sublist (map ascii_lower ''carbonara'')
                       (map ascii_lower (upto_nul (name r))))
             [pasta_row])"
    by (simp only: e)
  then have "sublist (map ascii_lower ''carbonara'')
               (map ascii_lower (upto_nul (name pasta_row)))"
    by (simp only: set_filter mem_Collect_eq)
  with w s show ?thesis by simp
qed

end
